theory Spec2Isabelle
  imports Main "HOL-Library.Word" "HOL-Library.List_Lexorder"
begin

section \<open>Strings\<close>

text \<open>
  A JavaScript string is a sequence of UTF-16 code units. The default comparator of
  \<open>Array.prototype.sort\<close> orders strings by their code units, a proper prefix first:
  the lexicographic order on lists of 16-bit words, read unsigned.
\<close>

type_synonym jsstring = "16 word list"

definition lit :: "string \<Rightarrow> jsstring" where
  "lit cs = map of_char cs"

text \<open>
  \<open>String.prototype.trim\<close> removes the WhiteSpace and LineTerminator code points
  from both ends.
\<close>

definition isWhiteSpace :: "16 word \<Rightarrow> bool" where
  "isWhiteSpace c = (c \<in> set [0x0009, 0x000A, 0x000B, 0x000C, 0x000D, 0x0020, 0x00A0,
     0x1680, 0x2000, 0x2001, 0x2002, 0x2003, 0x2004, 0x2005, 0x2006, 0x2007, 0x2008,
     0x2009, 0x200A, 0x2028, 0x2029, 0x202F, 0x205F, 0x3000, 0xFEFF])"

definition trim :: "jsstring \<Rightarrow> jsstring" where
  "trim s = rev (dropWhile isWhiteSpace (rev (dropWhile isWhiteSpace s)))"

text \<open>
  Truthiness of a \<open>string | null\<close> value: \<open>null\<close>, \<open>undefined\<close> and the empty
  string are falsy.
\<close>

fun truthy :: "jsstring option \<Rightarrow> bool" where
  "truthy None = False"
| "truthy (Some v) = (v \<noteq> [])"

section \<open>Data\<close>

text \<open>
  A pending timer of the event loop. Its action is the closure given to
  \<open>setTimeout\<close>: the one of the broadcast handler calls \<open>setIsTyping(false)\<close>, the
  one of \<open>handleInputChange\<close> calls \<open>sendTypingEvent(false)\<close> of the render that
  created it, with that render's \<open>currentUser\<close> and \<open>selectedUserId\<close>.
\<close>

datatype timer_action =
    HideTyping
  | SendTypingStopped "jsstring option" "jsstring option"

record timer =
  timer_id :: nat
  deadline :: nat
  action :: timer_action

text \<open>A broadcast handed to \<open>channel.send\<close>, with the time it was sent at.\<close>

record broadcast =
  sent_at :: nat
  topic :: jsstring
  userId :: jsstring
  typing :: bool

text \<open>
  A channel made by the subscription effect. The two handlers registered on it are
  closures over the effect's \<open>currentUser\<close> and \<open>selectedUserId\<close>.
\<close>

record channel =
  channel_id :: nat
  channel_topic :: jsstring
  channel_user :: jsstring
  channel_peer :: jsstring

datatype query_key = Messages "jsstring option" | Conversations

record request =
  receiverId :: jsstring
  content :: jsstring

text \<open>The row in \<open>payload.new\<close> of an INSERT on table \<open>messages\<close>.\<close>

record message =
  message_id :: jsstring
  sender_id :: jsstring
  receiver_id :: jsstring
  message_content :: jsstring

text \<open>
  The component's state (\<open>currentUser\<close> is the user's \<open>id\<close>, \<open>None\<close> when nobody
  is logged in), the cleanup the subscription effect returned last (\<open>subscription\<close>:
  the channel that cleanup removes, \<open>None\<close> when the effect returned early), and
  what the component did to its collaborators: the pending timers of the event loop with
  a clock in milliseconds, the subscribed channels of the realtime client, the
  broadcasts sent, the queries invalidated and the create-message requests issued.
  Timer handles are never falsy (objects in Node, positive numbers in a browser), so a
  handle stored in \<open>typingTimeoutRef.current\<close> is \<open>Some i\<close> and the initial
  \<open>null\<close> is \<open>None\<close>. The code never resets the ref to \<open>null\<close>.
\<close>

record state =
  currentUser :: "jsstring option"
  selectedUserId :: "jsstring option"
  messageInput :: jsstring
  isTyping :: bool
  typingTimeoutRef :: "nat option"
  subscription :: "channel option"
  now :: nat
  next_timer :: nat
  timers :: "timer list"
  next_channel :: nat
  channels :: "channel list"
  broadcasts :: "broadcast list"
  invalidated :: "query_key list"
  requests :: "request list"

definition initial :: "jsstring option \<Rightarrow> state" where
  "initial u = \<lparr>currentUser = u, selectedUserId = None, messageInput = [],
     isTyping = False, typingTimeoutRef = None, subscription = None, now = 0,
     next_timer = 1, timers = [], next_channel = 1, channels = [], broadcasts = [],
     invalidated = [], requests = []\<rparr>"

section \<open>Timers and queries\<close>

definition setTimeout :: "timer_action \<Rightarrow> nat \<Rightarrow> state \<Rightarrow> nat \<times> state" where
  "setTimeout f ms s =
     (next_timer s,
      s\<lparr>timers := timers s @ [\<lparr>timer_id = next_timer s, deadline = now s + ms, action = f\<rparr>],
        next_timer := next_timer s + 1\<rparr>)"

definition clearTimeout :: "nat \<Rightarrow> state \<Rightarrow> state" where
  "clearTimeout i s = s\<lparr>timers := filter (\<lambda>t. timer_id t \<noteq> i) (timers s)\<rparr>"

definition invalidateQueries :: "query_key \<Rightarrow> state \<Rightarrow> state" where
  "invalidateQueries k s = s\<lparr>invalidated := invalidated s @ [k]\<rparr>"

section \<open>The channel name\<close>

definition channelName :: "jsstring \<Rightarrow> jsstring \<Rightarrow> jsstring" where
  "channelName uid sel =
     (let userIds = sort [uid, sel]
      in lit ''chat-'' @ userIds ! 0 @ lit ''-'' @ userIds ! 1)"

section \<open>Typing events sent\<close>

text \<open>
  \<open>supabase.channel(channelName).send(...)\<close> hands the broadcast to the realtime
  client for that topic. It never calls \<open>subscribe\<close>, so it opens no subscription:
  the model records the broadcast and leaves the subscribed channels alone.
\<close>

definition sendTypingEvent :: "jsstring option \<Rightarrow> jsstring option \<Rightarrow> bool \<Rightarrow> state \<Rightarrow> state" where
  "sendTypingEvent cu sel t s =
     (case cu of
        None \<Rightarrow> s
      | Some uid \<Rightarrow>
          (case sel of
             None \<Rightarrow> s
           | Some p \<Rightarrow>
               if p = [] then s
               else s\<lparr>broadcasts := broadcasts s @
                      [\<lparr>sent_at = now s, topic = channelName uid p, userId = uid, typing = t\<rparr>]\<rparr>))"

definition handleInputChange :: "jsstring \<Rightarrow> state \<Rightarrow> state" where
  "handleInputChange v s =
     (let s1 = s\<lparr>messageInput := v\<rparr>
      in if length v > 0 then
           (let s2 = sendTypingEvent (currentUser s) (selectedUserId s) True s1;
                s3 = (case typingTimeoutRef s2 of
                        Some i \<Rightarrow> clearTimeout i s2
                      | None \<Rightarrow> s2);
                (i, s4) = setTimeout (SendTypingStopped (currentUser s) (selectedUserId s)) 2000 s3
            in s4\<lparr>typingTimeoutRef := Some i\<rparr>)
         else sendTypingEvent (currentUser s) (selectedUserId s) False s1)"

section \<open>Sending a message\<close>

definition mutate :: "request \<Rightarrow> state \<Rightarrow> state" where
  "mutate r s = s\<lparr>requests := requests s @ [r]\<rparr>"

definition handleSendMessage :: "state \<Rightarrow> state" where
  "handleSendMessage s =
     (case selectedUserId s of
        None \<Rightarrow> s
      | Some p \<Rightarrow>
          if trim (messageInput s) \<noteq> [] \<and> p \<noteq> [] then
            mutate \<lparr>receiverId = p, content = trim (messageInput s)\<rparr>
              (sendTypingEvent (currentUser s) (selectedUserId s) False s)
          else s)"

definition onSuccess :: "state \<Rightarrow> state" where
  "onSuccess s =
     (invalidateQueries Conversations (invalidateQueries (Messages (selectedUserId s)) s))
       \<lparr>messageInput := []\<rparr>"

section \<open>The handlers of the subscription\<close>

definition isRelevant :: "channel \<Rightarrow> message \<Rightarrow> bool" where
  "isRelevant ch newMessage =
     ((sender_id newMessage = channel_user ch \<and> receiver_id newMessage = channel_peer ch) \<or>
      (sender_id newMessage = channel_peer ch \<and> receiver_id newMessage = channel_user ch))"

definition on_postgres_changes :: "channel \<Rightarrow> message \<Rightarrow> state \<Rightarrow> state" where
  "on_postgres_changes ch newMessage s =
     (if isRelevant ch newMessage then
        invalidateQueries Conversations
          (invalidateQueries (Messages (Some (channel_peer ch))) s)
      else s)"

definition on_broadcast_typing :: "channel \<Rightarrow> jsstring \<Rightarrow> bool \<Rightarrow> state \<Rightarrow> state" where
  "on_broadcast_typing ch uid t s =
     (if uid = channel_peer ch then
        (let s1 = s\<lparr>isTyping := t\<rparr>;
             s2 = (case typingTimeoutRef s1 of
                     Some i \<Rightarrow> if t then clearTimeout i s1 else s1
                   | None \<Rightarrow> s1)
         in if t then
              (let (i, s3) = setTimeout HideTyping 3000 s2
               in s3\<lparr>typingTimeoutRef := Some i\<rparr>)
            else s2)
      else s)"

section \<open>The subscription effect\<close>

definition removeChannel :: "channel \<Rightarrow> state \<Rightarrow> state" where
  "removeChannel ch s =
     s\<lparr>channels := filter (\<lambda>c. channel_id c \<noteq> channel_id ch) (channels s)\<rparr>"

text \<open>
  The body of the effect: it returns early, with no cleanup, without a user or a peer;
  otherwise it opens a channel and returns the cleanup that removes this channel.
\<close>

definition runEffect :: "state \<Rightarrow> state" where
  "runEffect s =
     (case currentUser s of
        None \<Rightarrow> s\<lparr>subscription := None\<rparr>
      | Some uid \<Rightarrow>
          (case selectedUserId s of
             None \<Rightarrow> s\<lparr>subscription := None\<rparr>
           | Some p \<Rightarrow>
               if p = [] then s\<lparr>subscription := None\<rparr>
               else
                 (let ch = \<lparr>channel_id = next_channel s, channel_topic = channelName uid p,
                            channel_user = uid, channel_peer = p\<rparr>
                  in s\<lparr>channels := channels s @ [ch], next_channel := next_channel s + 1,
                       subscription := Some ch\<rparr>)))"

definition runCleanup :: "state \<Rightarrow> state" where
  "runCleanup s =
     (case subscription s of
        None \<Rightarrow> s
      | Some ch \<Rightarrow>
          (let s1 = (case typingTimeoutRef s of
                       Some i \<Rightarrow> clearTimeout i s
                     | None \<Rightarrow> s)
           in (removeChannel ch s1)\<lparr>subscription := None\<rparr>))"

text \<open>
  React's contract for an effect with dependencies \<open>[currentUser, selectedUserId,
  queryClient]\<close>: when a dependency has changed after a render, the cleanup returned
  by the previous run of the effect is called, then the effect runs again; when none
  has changed nothing runs; on unmount the cleanup is called.
\<close>

definition setSelectedUserId :: "jsstring option \<Rightarrow> state \<Rightarrow> state" where
  "setSelectedUserId p s =
     (if p = selectedUserId s then s
      else runEffect (runCleanup (s\<lparr>selectedUserId := p\<rparr>)))"

text \<open>
  \<open>currentUser\<close> is an object, compared by identity: whenever the auth context hands
  out another user object, also one with the same \<open>id\<close>, the effect runs again.
\<close>

definition authChanged :: "jsstring option \<Rightarrow> state \<Rightarrow> state" where
  "authChanged u s = runEffect (runCleanup (s\<lparr>currentUser := u\<rparr>))"

definition unmount :: "state \<Rightarrow> state" where
  "unmount s = runCleanup s"

section \<open>The event loop\<close>

definition fire :: "timer \<Rightarrow> state \<Rightarrow> state" where
  "fire t s =
     (case action t of
        HideTyping \<Rightarrow> s\<lparr>isTyping := False\<rparr>
      | SendTypingStopped cu sel \<Rightarrow> sendTypingEvent cu sel False s)"

text \<open>
  Letting \<open>d\<close> milliseconds pass: the timers due by then fire in the order of their
  deadlines (those with equal deadlines in the order they were set), each at its
  deadline.
\<close>

definition advance :: "nat \<Rightarrow> state \<Rightarrow> state" where
  "advance d s =
     (let t = now s + d;
          due = sort_key deadline (filter (\<lambda>x. deadline x \<le> t) (timers s));
          s1 = s\<lparr>timers := filter (\<lambda>x. \<not> deadline x \<le> t) (timers s)\<rparr>
      in (fold (\<lambda>x a. fire x (a\<lparr>now := deadline x\<rparr>)) due s1)\<lparr>now := t\<rparr>)"

text \<open>
  What can happen to the mounted component. Events of the realtime client reach the
  handlers of the channel only while the subscription is there.
\<close>

datatype event =
    SelectPeer "jsstring option"
  | AuthChange "jsstring option"
  | InputChange jsstring
  | SendMessage
  | SendSucceeded
  | ChangeEvent message
  | TypingEvent jsstring bool
  | Advance nat

fun step :: "event \<Rightarrow> state \<Rightarrow> state" where
  "step (SelectPeer p) s = setSelectedUserId p s"
| "step (AuthChange u) s = authChanged u s"
| "step (InputChange v) s = handleInputChange v s"
| "step SendMessage s = handleSendMessage s"
| "step SendSucceeded s = onSuccess s"
| "step (ChangeEvent m) s =
     (case subscription s of None \<Rightarrow> s | Some ch \<Rightarrow> on_postgres_changes ch m s)"
| "step (TypingEvent uid t) s =
     (case subscription s of None \<Rightarrow> s | Some ch \<Rightarrow> on_broadcast_typing ch uid t s)"
| "step (Advance d) s = advance d s"

fun run :: "event list \<Rightarrow> state \<Rightarrow> state" where
  "run [] s = s"
| "run (e # es) s = run es (step e s)"

section \<open>Schedules of keystrokes\<close>

text \<open>
  A schedule of input changes: each pair \<open>(d, v)\<close> is a change of the input to \<open>v\<close>
  that arrives \<open>d\<close> milliseconds after the event before it. \<open>keystroke_times t ks\<close>
  are the times of these changes when the schedule starts at time \<open>t\<close>, and
  \<open>typing_at u p b t\<close> is the typing broadcast of user \<open>u\<close> to peer \<open>p\<close> with flag
  \<open>b\<close>, sent at time \<open>t\<close>.
\<close>

fun keystrokes :: "(nat \<times> jsstring) list \<Rightarrow> state \<Rightarrow> state" where
  "keystrokes [] s = s"
| "keystrokes ((d, v) # ks) s = keystrokes ks (handleInputChange v (advance d s))"

fun keystroke_times :: "nat \<Rightarrow> (nat \<times> jsstring) list \<Rightarrow> nat list" where
  "keystroke_times t [] = []"
| "keystroke_times t ((d, v) # ks) = (t + d) # keystroke_times (t + d) ks"

definition typing_at :: "jsstring \<Rightarrow> jsstring \<Rightarrow> bool \<Rightarrow> nat \<Rightarrow> broadcast" where
  "typing_at u p b t = \<lparr>sent_at = t, topic = channelName u p, userId = u, typing = b\<rparr>"

section \<open>Invariants\<close>

text \<open>
  Every pending timer is the one whose handle is in \<open>typingTimeoutRef\<close>: each
  \<open>setTimeout\<close> of the component is preceded by \<open>clearTimeout\<close> of the handle in the
  ref and stores the new handle there.
\<close>

definition timers_owned :: "state \<Rightarrow> bool" where
  "timers_owned s = list_all (\<lambda>t. typingTimeoutRef s = Some (timer_id t)) (timers s)"

text \<open>The subscribed channels are exactly the one the pending cleanup will remove.\<close>

definition one_channel :: "state \<Rightarrow> bool" where
  "one_channel s = (channels s = (case subscription s of None \<Rightarrow> [] | Some ch \<Rightarrow> [ch]))"

text \<open>
  After a non-empty input change of user \<open>u\<close> in the conversation with \<open>p\<close>: the one
  pending timer is the idle timer, due 2000 ms from now.
\<close>

definition idle_armed :: "jsstring \<Rightarrow> jsstring \<Rightarrow> state \<Rightarrow> bool" where
  "idle_armed u p s =
     (currentUser s = Some u \<and> selectedUserId s = Some p \<and> p \<noteq> [] \<and> timers_owned s \<and>
      map deadline (timers s) = [now s + 2000] \<and>
      map action (timers s) = [SendTypingStopped (Some u) (Some p)])"

section \<open>The channel name is symmetric\<close>

lemma sort_pair_swap: "sort [a, b] = sort [b, (a::jsstring)]"
  by (cases "a \<le> b"; cases "b \<le> a") auto

text \<open>
  C8: the channel name derived from the pair (a, b) is the string derived from
  (b, a): both participants compute the same topic.
\<close>

theorem channelName_symmetric: "channelName a b = channelName b a"
  unfolding channelName_def by (simp only: sort_pair_swap [of a b])

section \<open>The relevance filter of change events\<close>

text \<open>
  C1: the handler of an inserted message invalidates the thread of the active peer and
  the conversation list exactly when the message's sender and receiver are the current
  user and the selected peer, in either direction; otherwise it changes nothing. So a
  message between x and y invalidates nothing in the conversation of x with another
  peer z.
\<close>

theorem change_event_invalidates_iff_relevant:
  "on_postgres_changes ch m s =
     (if {sender_id m, receiver_id m} = {channel_user ch, channel_peer ch}
      then s\<lparr>invalidated := invalidated s @ [Messages (Some (channel_peer ch)), Conversations]\<rparr>
      else s)
   \<and> (channel_user ch = x \<and> channel_peer ch = z \<and> z \<noteq> y \<and>
      ((sender_id m = x \<and> receiver_id m = y) \<or> (sender_id m = y \<and> receiver_id m = x))
      \<longrightarrow> on_postgres_changes ch m s = s)"
  by (auto simp: on_postgres_changes_def isRelevant_def invalidateQueries_def doubleton_eq_iff)

theorem change_event_invalidates_iff_relevant_witness:
  "on_postgres_changes
     \<lparr>channel_id = 1, channel_topic = channelName (lit ''x'') (lit ''z''),
      channel_user = lit ''x'', channel_peer = lit ''z''\<rparr>
     \<lparr>message_id = lit ''m1'', sender_id = lit ''x'', receiver_id = lit ''y'',
      message_content = lit ''hi''\<rparr>
     (initial (Some (lit ''x''))) = initial (Some (lit ''x''))"
  using change_event_invalidates_iff_relevant
    [of "\<lparr>channel_id = 1, channel_topic = channelName (lit ''x'') (lit ''z''),
          channel_user = lit ''x'', channel_peer = lit ''z''\<rparr>"
        "\<lparr>message_id = lit ''m1'', sender_id = lit ''x'', receiver_id = lit ''y'',
          message_content = lit ''hi''\<rparr>"
        "initial (Some (lit ''x''))" "lit ''x''" "lit ''z''" "lit ''y''"]
  by (simp add: lit_def doubleton_eq_iff)

section \<open>Every pending timer is the one in the ref\<close>

lemma timers_owned_None: "timers_owned s \<Longrightarrow> typingTimeoutRef s = None \<Longrightarrow> timers s = []"
  by (cases "timers s") (auto simp: timers_owned_def)

lemma timers_owned_clear:
  "timers_owned s \<Longrightarrow> typingTimeoutRef s = Some i \<Longrightarrow>
   filter (\<lambda>t. timer_id t \<noteq> i) (timers s) = []"
  by (auto simp: timers_owned_def list_all_iff filter_empty_conv)

lemma sendTypingEvent_frame [simp]:
  "timers (sendTypingEvent cu sel t s) = timers s"
  "typingTimeoutRef (sendTypingEvent cu sel t s) = typingTimeoutRef s"
  "channels (sendTypingEvent cu sel t s) = channels s"
  "subscription (sendTypingEvent cu sel t s) = subscription s"
  "now (sendTypingEvent cu sel t s) = now s"
  "next_timer (sendTypingEvent cu sel t s) = next_timer s"
  "isTyping (sendTypingEvent cu sel t s) = isTyping s"
  "messageInput (sendTypingEvent cu sel t s) = messageInput s"
  "currentUser (sendTypingEvent cu sel t s) = currentUser s"
  "selectedUserId (sendTypingEvent cu sel t s) = selectedUserId s"
  by (auto simp: sendTypingEvent_def split: option.splits)

lemma handleInputChange_timers:
  "timers_owned s \<Longrightarrow> v \<noteq> [] \<Longrightarrow>
   timers (handleInputChange v s) =
     [\<lparr>timer_id = next_timer s, deadline = now s + 2000,
       action = SendTypingStopped (currentUser s) (selectedUserId s)\<rparr>]
   \<and> typingTimeoutRef (handleInputChange v s) = Some (next_timer s)"
  by (auto simp: handleInputChange_def Let_def setTimeout_def clearTimeout_def
      timers_owned_None timers_owned_clear split: option.splits)

lemma timers_owned_handleInputChange:
  assumes "timers_owned s"
  shows "timers_owned (handleInputChange v s)"
proof (cases "v = []")
  case True
  with assms show ?thesis
    by (simp add: timers_owned_def handleInputChange_def)
next
  case False
  with assms handleInputChange_timers [of s v] show ?thesis
    by (simp add: timers_owned_def)
qed

lemma timers_owned_handleSendMessage: "timers_owned s \<Longrightarrow> timers_owned (handleSendMessage s)"
  by (auto simp: timers_owned_def handleSendMessage_def mutate_def split: option.splits)

lemma timers_owned_onSuccess: "timers_owned s \<Longrightarrow> timers_owned (onSuccess s)"
  by (auto simp: timers_owned_def onSuccess_def invalidateQueries_def)

lemma timers_owned_on_postgres_changes:
  "timers_owned s \<Longrightarrow> timers_owned (on_postgres_changes ch m s)"
  by (auto simp: timers_owned_def on_postgres_changes_def invalidateQueries_def)

lemma on_broadcast_typing_True:
  "timers_owned s \<Longrightarrow>
   on_broadcast_typing ch (channel_peer ch) True s =
     s\<lparr>isTyping := True,
       timers := [\<lparr>timer_id = next_timer s, deadline = now s + 3000, action = HideTyping\<rparr>],
       next_timer := next_timer s + 1,
       typingTimeoutRef := Some (next_timer s)\<rparr>"
  by (auto simp: on_broadcast_typing_def Let_def setTimeout_def clearTimeout_def
      timers_owned_None timers_owned_clear split: option.splits)

lemma on_broadcast_typing_False:
  "on_broadcast_typing ch (channel_peer ch) False s = s\<lparr>isTyping := False\<rparr>"
  by (auto simp: on_broadcast_typing_def Let_def split: option.splits)

lemma on_broadcast_typing_other:
  "uid \<noteq> channel_peer ch \<Longrightarrow> on_broadcast_typing ch uid t s = s"
  by (simp add: on_broadcast_typing_def)

lemma timers_owned_on_broadcast_typing:
  assumes "timers_owned s"
  shows "timers_owned (on_broadcast_typing ch uid t s)"
proof (cases "uid = channel_peer ch")
  case False
  with assms show ?thesis by (simp add: on_broadcast_typing_other)
next
  case True
  show ?thesis
  proof (cases t)
    case True
    with \<open>uid = channel_peer ch\<close> assms show ?thesis
      by (simp add: on_broadcast_typing_True) (simp add: timers_owned_def)
  next
    case False
    with \<open>uid = channel_peer ch\<close> assms show ?thesis
      by (simp add: on_broadcast_typing_False) (simp add: timers_owned_def)
  qed
qed

lemma runEffect_frame [simp]:
  "timers (runEffect s) = timers s"
  "typingTimeoutRef (runEffect s) = typingTimeoutRef s"
  by (auto simp: runEffect_def Let_def split: option.splits)

lemma timers_owned_runCleanup: "timers_owned s \<Longrightarrow> timers_owned (runCleanup s)"
  by (auto simp: timers_owned_def runCleanup_def removeChannel_def clearTimeout_def
      list_all_iff split: option.splits)

lemma timers_owned_upd [simp]:
  "timers_owned (s\<lparr>selectedUserId := p\<rparr>) = timers_owned s"
  "timers_owned (s\<lparr>currentUser := u\<rparr>) = timers_owned s"
  by (auto simp: timers_owned_def)

lemma timers_owned_runEffect: "timers_owned s \<Longrightarrow> timers_owned (runEffect s)"
  by (auto simp: timers_owned_def)

lemma fold_fire_frame:
  "timers (fold (\<lambda>x a. fire x (a\<lparr>now := deadline x\<rparr>)) ds s) = timers s \<and>
   typingTimeoutRef (fold (\<lambda>x a. fire x (a\<lparr>now := deadline x\<rparr>)) ds s) = typingTimeoutRef s"
  by (induction ds arbitrary: s) (auto simp: fire_def split: timer_action.splits)

lemma timers_owned_advance: "timers_owned s \<Longrightarrow> timers_owned (advance d s)"
  by (auto simp: timers_owned_def advance_def Let_def fold_fire_frame list_all_iff)

lemma timers_owned_step: "timers_owned s \<Longrightarrow> timers_owned (step e s)"
  by (cases e)
     (auto simp: timers_owned_handleInputChange timers_owned_handleSendMessage
        timers_owned_onSuccess timers_owned_on_postgres_changes
        timers_owned_on_broadcast_typing timers_owned_advance
        timers_owned_runEffect timers_owned_runCleanup
        setSelectedUserId_def authChanged_def split: option.splits)

lemma timers_owned_run: "timers_owned s \<Longrightarrow> timers_owned (run es s)"
  by (induction es arbitrary: s) (auto simp: timers_owned_step)

lemma timers_owned_initial: "timers_owned (initial u)"
  by (simp add: timers_owned_def initial_def)

section \<open>Letting time pass\<close>

lemma advance_none_due:
  assumes "list_all (\<lambda>t. now s + d < deadline t) (timers s)"
  shows "advance d s = s\<lparr>now := now s + d\<rparr>"
proof -
  from assms have none: "filter (\<lambda>x. deadline x \<le> now s + d) (timers s) = []"
    by (auto simp: list_all_iff filter_empty_conv)
  from assms have all: "filter (\<lambda>x. \<not> deadline x \<le> now s + d) (timers s) = timers s"
    by (auto simp: list_all_iff filter_id_conv)
  show ?thesis unfolding advance_def Let_def none all by simp
qed

lemma advance_single_due:
  assumes "timers s = [t]" and "deadline t \<le> now s + d"
  shows "advance d s = (fire t (s\<lparr>timers := [], now := deadline t\<rparr>))\<lparr>now := now s + d\<rparr>"
  using assms by (simp add: advance_def Let_def)

section \<open>One subscription at a time\<close>

lemma one_channel_runCleanup:
  "one_channel s \<Longrightarrow> channels (runCleanup s) = [] \<and> subscription (runCleanup s) = None"
  by (auto simp: one_channel_def runCleanup_def removeChannel_def clearTimeout_def
      split: option.splits)

lemma one_channel_runEffect:
  "channels s = [] \<Longrightarrow> one_channel (runEffect s)"
  by (auto simp: one_channel_def runEffect_def Let_def split: option.splits)

lemma channels_runCleanup_upd:
  "one_channel s \<Longrightarrow> channels (runCleanup (s\<lparr>selectedUserId := p\<rparr>)) = []"
  "one_channel s \<Longrightarrow> channels (runCleanup (s\<lparr>currentUser := u\<rparr>)) = []"
  by (rule conjunct1 [OF one_channel_runCleanup], simp add: one_channel_def)+

lemma fold_fire_channels:
  "channels (fold (\<lambda>x a. fire x (a\<lparr>now := deadline x\<rparr>)) ds s) = channels s \<and>
   subscription (fold (\<lambda>x a. fire x (a\<lparr>now := deadline x\<rparr>)) ds s) = subscription s"
  by (induction ds arbitrary: s) (auto simp: fire_def split: timer_action.splits)

lemma one_channel_step: "one_channel s \<Longrightarrow> one_channel (step e s)"
proof (cases e)
  case (SelectPeer p)
  assume "one_channel s"
  then show ?thesis unfolding SelectPeer
    by (simp add: setSelectedUserId_def one_channel_runEffect channels_runCleanup_upd)
next
  case (AuthChange u)
  assume "one_channel s"
  then show ?thesis unfolding AuthChange
    by (simp add: authChanged_def one_channel_runEffect channels_runCleanup_upd)
next
  case (InputChange v)
  assume "one_channel s"
  then show ?thesis unfolding InputChange
    by (auto simp: one_channel_def handleInputChange_def Let_def setTimeout_def
        clearTimeout_def split: option.splits)
next
  case SendMessage
  assume "one_channel s"
  then show ?thesis unfolding SendMessage
    by (auto simp: one_channel_def handleSendMessage_def mutate_def split: option.splits)
next
  case SendSucceeded
  assume "one_channel s"
  then show ?thesis unfolding SendSucceeded
    by (simp add: one_channel_def onSuccess_def invalidateQueries_def)
next
  case (ChangeEvent m)
  assume "one_channel s"
  then show ?thesis unfolding ChangeEvent
    by (auto simp: one_channel_def on_postgres_changes_def invalidateQueries_def
        split: option.splits)
next
  case (TypingEvent uid t)
  assume "one_channel s"
  then show ?thesis unfolding TypingEvent
    by (auto simp: one_channel_def on_broadcast_typing_def Let_def setTimeout_def
        clearTimeout_def split: option.splits)
next
  case (Advance d)
  assume "one_channel s"
  then show ?thesis unfolding Advance
    by (simp add: one_channel_def advance_def Let_def fold_fire_channels)
qed

lemma one_channel_run: "one_channel s \<Longrightarrow> one_channel (run es s)"
  by (induction es arbitrary: s) (auto simp: one_channel_step)

lemma one_channel_initial: "one_channel (initial u)"
  by (simp add: one_channel_def initial_def)

lemma one_channel_length: "one_channel s \<Longrightarrow> length (channels s) \<le> 1"
  by (auto simp: one_channel_def split: option.splits)

text \<open>
  C2: in every state the mounted component reaches, at most one subscribed channel is
  live. When another peer is selected, the cleanup of the previous run of the effect has
  removed the previous peer's channel (no channel is left) before the effect opens the
  new one, and afterwards the only live channel is the one of the newly selected peer.
  Unmounting leaves no channel.
\<close>

theorem one_live_subscription:
  "length (channels (run es (initial u))) \<le> 1 \<and>
   channels (runCleanup ((run es (initial u))\<lparr>selectedUserId := c\<rparr>)) = [] \<and>
   length (channels (setSelectedUserId c (run es (initial u)))) \<le> 1 \<and>
   channels (unmount (run es (initial u))) = [] \<and>
   (currentUser (run es (initial u)) = Some a \<and> c = Some p \<and> p \<noteq> [] \<and>
    c \<noteq> selectedUserId (run es (initial u)) \<longrightarrow>
    channels (setSelectedUserId c (run es (initial u))) =
      [\<lparr>channel_id = next_channel (run es (initial u)), channel_topic = channelName a p,
        channel_user = a, channel_peer = p\<rparr>])"
proof -
  let ?s = "run es (initial u)"
  have inv: "one_channel ?s"
    by (rule one_channel_run [OF one_channel_initial])
  have 1: "length (channels ?s) \<le> 1"
    by (rule one_channel_length [OF inv])
  have 2: "channels (runCleanup (?s\<lparr>selectedUserId := c\<rparr>)) = []"
    by (rule channels_runCleanup_upd(1) [OF inv])
  have "one_channel (setSelectedUserId c ?s)"
    using one_channel_step [OF inv, of "SelectPeer c"] by simp
  then have 3: "length (channels (setSelectedUserId c ?s)) \<le> 1"
    by (rule one_channel_length)
  have 4: "channels (unmount ?s) = []"
    using one_channel_runCleanup [OF inv] by (simp add: unmount_def)
  have 5: "channels (setSelectedUserId c ?s) =
      [\<lparr>channel_id = next_channel ?s, channel_topic = channelName a p,
        channel_user = a, channel_peer = p\<rparr>]"
    if "currentUser ?s = Some a" "c = Some p" "p \<noteq> []" "c \<noteq> selectedUserId ?s"
  proof -
    let ?m = "runCleanup (?s\<lparr>selectedUserId := c\<rparr>)"
    have "currentUser ?m = Some a \<and> selectedUserId ?m = Some p \<and>
        next_channel ?m = next_channel ?s"
      using that by (auto simp: runCleanup_def removeChannel_def clearTimeout_def
          split: option.splits)
    with 2 that show ?thesis
      by (simp add: setSelectedUserId_def runEffect_def Let_def)
  qed
  from 1 2 3 4 5 show ?thesis by blast
qed

theorem one_live_subscription_witness:
  "channels (run [SelectPeer (Some (lit ''b'')), SelectPeer (Some (lit ''c''))]
      (initial (Some (lit ''a'')))) =
     [\<lparr>channel_id = 2, channel_topic = lit ''chat-a-c'', channel_user = lit ''a'',
       channel_peer = lit ''c''\<rparr>]"
  using one_live_subscription [of "[SelectPeer (Some (lit ''b''))]" "Some (lit ''a'')"
      "Some (lit ''c'')" "lit ''a''" "lit ''c''"]
  by (simp add: lit_def initial_def setSelectedUserId_def runCleanup_def runEffect_def
      removeChannel_def channelName_def Let_def)

section \<open>Sending trims the draft\<close>

lemma trim_all_whitespace:
  assumes "list_all isWhiteSpace v"
  shows "trim v = []"
proof -
  from assms have empty: "dropWhile isWhiteSpace v = []"
    by (simp add: list_all_iff)
  show ?thesis unfolding trim_def empty by simp
qed

lemma trim_hello: "trim (lit ''  hello  '') = lit ''hello''"
  by (simp add: trim_def lit_def isWhiteSpace_def)

lemma trim_blank: "trim (lit '''') = [] \<and> trim (lit ''   '') = []"
  by (simp add: trim_def lit_def isWhiteSpace_def)

text \<open>
  C9: with a peer selected and a draft that is not blank, sending issues one
  create-message request to that peer whose content is the trimmed draft, so the draft
  "  hello  " is sent as "hello". With an empty draft, a draft of white space only
  (such as "   ") or no peer selected, sending is a no-op: the state, and with it the
  list of requests, is unchanged.
\<close>

theorem send_trims_content_or_is_noop:
  "(selectedUserId s = Some p \<and> p \<noteq> [] \<and> trim (messageInput s) \<noteq> [] \<longrightarrow>
      requests (handleSendMessage s) =
        requests s @ [\<lparr>receiverId = p, content = trim (messageInput s)\<rparr>]) \<and>
   trim (lit ''  hello  '') = lit ''hello'' \<and>
   trim (lit '''') = [] \<and> trim (lit ''   '') = [] \<and>
   (list_all isWhiteSpace (messageInput s) \<or> \<not> truthy (selectedUserId s) \<longrightarrow>
      handleSendMessage s = s)"
proof -
  have sent: "requests (handleSendMessage s) =
      requests s @ [\<lparr>receiverId = p, content = trim (messageInput s)\<rparr>]"
    if "selectedUserId s = Some p" "p \<noteq> []" "trim (messageInput s) \<noteq> []"
    using that by (simp add: handleSendMessage_def mutate_def sendTypingEvent_def
        split: option.splits)
  have noop: "handleSendMessage s = s"
    if "list_all isWhiteSpace (messageInput s) \<or> \<not> truthy (selectedUserId s)"
  proof (cases "selectedUserId s")
    case None
    then show ?thesis by (simp add: handleSendMessage_def)
  next
    case (Some q)
    with that have "trim (messageInput s) = [] \<or> q = []"
      by (auto simp: trim_all_whitespace)
    with Some show ?thesis by (auto simp: handleSendMessage_def)
  qed
  from sent noop trim_hello trim_blank show ?thesis by blast
qed

theorem send_trims_content_or_is_noop_witness:
  "requests (handleSendMessage
      ((initial (Some (lit ''a'')))
        \<lparr>selectedUserId := Some (lit ''b''), messageInput := lit ''  hello  ''\<rparr>)) =
     [\<lparr>receiverId = lit ''b'', content = lit ''hello''\<rparr>] \<and>
   handleSendMessage
      ((initial (Some (lit ''a'')))
        \<lparr>selectedUserId := Some (lit ''b''), messageInput := lit ''   ''\<rparr>) =
     (initial (Some (lit ''a'')))
        \<lparr>selectedUserId := Some (lit ''b''), messageInput := lit ''   ''\<rparr>"
  using send_trims_content_or_is_noop
      [of "(initial (Some (lit ''a'')))
        \<lparr>selectedUserId := Some (lit ''b''), messageInput := lit ''  hello  ''\<rparr>" "lit ''b''"]
    send_trims_content_or_is_noop
      [of "(initial (Some (lit ''a'')))
        \<lparr>selectedUserId := Some (lit ''b''), messageInput := lit ''   ''\<rparr>" "lit ''b''"]
  by (simp add: lit_def initial_def isWhiteSpace_def)

section \<open>The draft\<close>










section \<open>Typing events received\<close>

lemma advance_hide_pending:
  assumes "timers s = [\<lparr>timer_id = i, deadline = now s + 3000, action = HideTyping\<rparr>]"
    and "d < 3000"
  shows "advance d s = s\<lparr>now := now s + d\<rparr>"
  using assms by (simp add: advance_none_due)

lemma advance_hide_due:
  assumes "timers s = [\<lparr>timer_id = i, deadline = now s + 3000, action = HideTyping\<rparr>]"
    and "3000 \<le> d"
  shows "advance d s = s\<lparr>timers := [], isTyping := False, now := now s + d\<rparr>"
  using assms by (simp add: advance_single_due fire_def)

text \<open>
  When nothing but time passes after it: in a state the component has reached, a
  typing:true broadcast from the selected peer sets the remote-typing flag and leaves
  exactly one pending timer, the expiry timer due 3000 ms later. The flag is still set
  after any time shorter than 3000 ms and is cleared, by the timer, once 3000 ms have
  passed. A second typing:true before that leaves again exactly one pending timer, due
  3000 ms after the second event: the timer is restarted, not stacked.
\<close>

lemma remote_typing_expires_after_3s:
  assumes "s = run es (initial cu)"
    and "s' = on_broadcast_typing ch (channel_peer ch) True s"
  shows "isTyping s' \<and>
     timers s' = [\<lparr>timer_id = next_timer s, deadline = now s + 3000, action = HideTyping\<rparr>] \<and>
     (d < 3000 \<longrightarrow> isTyping (advance d s')) \<and>
     (3000 \<le> d \<longrightarrow> \<not> isTyping (advance d s') \<and> timers (advance d s') = []) \<and>
     (d < 3000 \<longrightarrow>
       timers (on_broadcast_typing ch (channel_peer ch) True (advance d s')) =
         [\<lparr>timer_id = next_timer s + 1, deadline = now s + d + 3000, action = HideTyping\<rparr>])"
proof -
  have owned: "timers_owned s"
    unfolding assms(1) by (rule timers_owned_run [OF timers_owned_initial])
  have s': "s' = s\<lparr>isTyping := True,
       timers := [\<lparr>timer_id = next_timer s, deadline = now s + 3000, action = HideTyping\<rparr>],
       next_timer := next_timer s + 1,
       typingTimeoutRef := Some (next_timer s)\<rparr>"
    unfolding assms(2) by (rule on_broadcast_typing_True [OF owned])
  have tm: "timers s' = [\<lparr>timer_id = next_timer s, deadline = now s' + 3000, action = HideTyping\<rparr>]"
    by (simp add: s')
  have early: "advance d s' = s'\<lparr>now := now s' + d\<rparr>" if "d < 3000"
    by (rule advance_hide_pending [OF tm that])
  have late: "advance d s' = s'\<lparr>timers := [], isTyping := False, now := now s' + d\<rparr>"
    if "3000 \<le> d"
    by (rule advance_hide_due [OF tm that])
  have owned': "timers_owned (advance d s')"
    using owned by (simp add: assms(2) timers_owned_on_broadcast_typing timers_owned_advance)
  have again: "timers (on_broadcast_typing ch (channel_peer ch) True (advance d s')) =
         [\<lparr>timer_id = next_timer s + 1, deadline = now s + d + 3000, action = HideTyping\<rparr>]"
    if "d < 3000"
  proof -
    have "timers (on_broadcast_typing ch (channel_peer ch) True (advance d s')) =
        [\<lparr>timer_id = next_timer (advance d s'), deadline = now (advance d s') + 3000,
          action = HideTyping\<rparr>]"
      by (subst on_broadcast_typing_True [OF owned']) simp
    also have "next_timer (advance d s') = next_timer s + 1"
      by (simp add: early [OF that]) (simp add: s')
    also have "now (advance d s') = now s + d"
      by (simp add: early [OF that]) (simp add: s')
    finally show ?thesis .
  qed
  show ?thesis
    using early late again by (simp add: s')
qed

lemma remote_typing_expires_after_3s_example:
  "isTyping (advance 2999
      (on_broadcast_typing
        \<lparr>channel_id = 1, channel_topic = lit ''chat-a-b'', channel_user = lit ''a'',
         channel_peer = lit ''b''\<rparr> (lit ''b'') True
        (run [SelectPeer (Some (lit ''b''))] (initial (Some (lit ''a'')))))) \<and>
   \<not> isTyping (advance 3000
      (on_broadcast_typing
        \<lparr>channel_id = 1, channel_topic = lit ''chat-a-b'', channel_user = lit ''a'',
         channel_peer = lit ''b''\<rparr> (lit ''b'') True
        (run [SelectPeer (Some (lit ''b''))] (initial (Some (lit ''a''))))))"
  using remote_typing_expires_after_3s
      [of "run [SelectPeer (Some (lit ''b''))] (initial (Some (lit ''a'')))"
        "[SelectPeer (Some (lit ''b''))]" "Some (lit ''a'')"
        "on_broadcast_typing
          \<lparr>channel_id = 1, channel_topic = lit ''chat-a-b'', channel_user = lit ''a'',
           channel_peer = lit ''b''\<rparr> (lit ''b'') True
          (run [SelectPeer (Some (lit ''b''))] (initial (Some (lit ''a''))))"
        "\<lparr>channel_id = 1, channel_topic = lit ''chat-a-b'', channel_user = lit ''a'',
           channel_peer = lit ''b''\<rparr>" 2999]
    remote_typing_expires_after_3s
      [of "run [SelectPeer (Some (lit ''b''))] (initial (Some (lit ''a'')))"
        "[SelectPeer (Some (lit ''b''))]" "Some (lit ''a'')"
        "on_broadcast_typing
          \<lparr>channel_id = 1, channel_topic = lit ''chat-a-b'', channel_user = lit ''a'',
           channel_peer = lit ''b''\<rparr> (lit ''b'') True
          (run [SelectPeer (Some (lit ''b''))] (initial (Some (lit ''a''))))"
        "\<lparr>channel_id = 1, channel_topic = lit ''chat-a-b'', channel_user = lit ''a'',
           channel_peer = lit ''b''\<rparr>" 3000]
  by simp

text \<open>
  C7, as the code has it: a typing:false broadcast from the selected peer clears the
  remote-typing flag and changes nothing else. The handler calls \<open>clearTimeout\<close> only
  under \<open>typing\<close>, so a pending expiry timer stays pending.
\<close>

theorem typing_false_keeps_expiry_timer:
  "on_broadcast_typing ch (channel_peer ch) False s = s\<lparr>isTyping := False\<rparr>"
  by (auto simp: on_broadcast_typing_def Let_def split: option.splits)

text \<open>
  The expiry timer set by a typing:true at time 0 is still pending after the
  typing:false that arrives at time 1000.
\<close>

theorem typing_false_cancels_timer_counterexample:
  "timers (run [SelectPeer (Some (lit ''b'')), TypingEvent (lit ''b'') True, Advance 1000,
                TypingEvent (lit ''b'') False]
             (initial (Some (lit ''a'')))) =
     [\<lparr>timer_id = 1, deadline = 3000, action = HideTyping\<rparr>]"
  by (simp add: lit_def initial_def setSelectedUserId_def runCleanup_def runEffect_def
      removeChannel_def channelName_def Let_def on_broadcast_typing_def setTimeout_def
      clearTimeout_def advance_def fire_def)

section \<open>Typing events sent on input and on send\<close>

lemma handleInputChange_frame:
  "currentUser (handleInputChange v s) = currentUser s"
  "selectedUserId (handleInputChange v s) = selectedUserId s"
  "now (handleInputChange v s) = now s"
  by (auto simp: handleInputChange_def Let_def setTimeout_def clearTimeout_def
      split: option.splits)

lemma handleInputChange_broadcasts:
  "currentUser s = Some u \<Longrightarrow> selectedUserId s = Some p \<Longrightarrow> p \<noteq> [] \<Longrightarrow> v \<noteq> [] \<Longrightarrow>
   broadcasts (handleInputChange v s) = broadcasts s @ [typing_at u p True (now s)]"
  by (auto simp: handleInputChange_def Let_def setTimeout_def clearTimeout_def
      sendTypingEvent_def typing_at_def split: option.splits)

lemma idle_armed_handleInputChange:
  assumes "timers_owned s" "currentUser s = Some u" "selectedUserId s = Some p" "p \<noteq> []"
    "v \<noteq> []"
  shows "idle_armed u p (handleInputChange v s)"
  using assms handleInputChange_timers [of s v] timers_owned_handleInputChange [of s v]
  by (simp add: idle_armed_def handleInputChange_frame)

lemma idle_armed_advance_early:
  assumes "idle_armed u p s" "d < 2000"
  shows "advance d s = s\<lparr>now := now s + d\<rparr>"
proof -
  from assms(1) obtain t where t: "timers s = [t]" "deadline t = now s + 2000"
    by (cases "timers s") (auto simp: idle_armed_def)
  with assms(2) show ?thesis by (simp add: advance_none_due)
qed

lemma idle_armed_advance_late:
  assumes "idle_armed u p s" "2000 \<le> d"
  shows "broadcasts (advance d s) = broadcasts s @ [typing_at u p False (now s + 2000)]"
proof -
  from assms(1) obtain t where t: "timers s = [t]" "deadline t = now s + 2000"
      "action t = SendTypingStopped (Some u) (Some p)"
    by (cases "timers s") (auto simp: idle_armed_def)
  from assms(1) have "p \<noteq> []" by (simp add: idle_armed_def)
  with t assms(2) show ?thesis
    by (simp add: advance_single_due fire_def sendTypingEvent_def typing_at_def)
qed

lemma idle_armed_keystroke:
  assumes "idle_armed u p s" "d < 2000" "v \<noteq> []"
  shows "idle_armed u p (handleInputChange v (advance d s)) \<and>
     broadcasts (handleInputChange v (advance d s)) =
       broadcasts s @ [typing_at u p True (now s + d)] \<and>
     now (handleInputChange v (advance d s)) = now s + d"
proof -
  let ?a = "advance d s"
  have a: "?a = s\<lparr>now := now s + d\<rparr>"
    by (rule idle_armed_advance_early [OF assms(1,2)])
  from assms(1) have "timers_owned s" "currentUser s = Some u" "selectedUserId s = Some p"
      "p \<noteq> []"
    by (simp_all add: idle_armed_def)
  then have pre: "timers_owned ?a" "currentUser ?a = Some u" "selectedUserId ?a = Some p"
    by (simp_all add: a timers_owned_def)
  from idle_armed_handleInputChange [OF pre \<open>p \<noteq> []\<close> assms(3)]
    handleInputChange_broadcasts [OF pre(2,3) \<open>p \<noteq> []\<close> assms(3)]
  show ?thesis by (simp add: handleInputChange_frame) (simp add: a)
qed

lemma idle_armed_keystrokes:
  assumes "idle_armed u p s" "list_all (\<lambda>(d, v). d < 2000 \<and> v \<noteq> []) ks"
  shows "idle_armed u p (keystrokes ks s) \<and>
     broadcasts (keystrokes ks s) =
       broadcasts s @ map (typing_at u p True) (keystroke_times (now s) ks) \<and>
     now (keystrokes ks s) = last (now s # keystroke_times (now s) ks)"
  using assms
proof (induction ks arbitrary: s)
  case Nil
  then show ?case by simp
next
  case (Cons k ks)
  obtain d v where k: "k = (d, v)" by (cases k)
  from Cons.prems(2) k have dv: "d < 2000" "v \<noteq> []"
    and rest: "list_all (\<lambda>(d, v). d < 2000 \<and> v \<noteq> []) ks"
    by simp_all
  let ?s = "handleInputChange v (advance d s)"
  from idle_armed_keystroke [OF Cons.prems(1) dv]
  have st: "idle_armed u p ?s"
    "broadcasts ?s = broadcasts s @ [typing_at u p True (now s + d)]"
    "now ?s = now s + d"
    by simp_all
  from Cons.IH [OF st(1) rest] show ?case
    by (simp add: k st(2,3))
qed

text \<open>
  When nothing but time passes after the last change: in a state the component has
  reached, with a user logged in and a peer selected (the input field is only rendered
  then), a non-empty input change sends typing:true at once. After this change and any
  schedule of further non-empty changes, each less than 2000 ms after the one before,
  the broadcasts sent are one typing:true per change, each at the time of its change,
  and no typing:false; the one pending timer is the idle timer, due 2000 ms after the
  last change. Nothing is sent before 2000 ms have passed, and once they have,
  typing:false has been sent, at 2000 ms after the last change.
\<close>

lemma typing_idle_timer_debounced:
  assumes "s = run es (initial cu)"
    and "currentUser s = Some u" and "selectedUserId s = Some p" and "p \<noteq> []"
    and "v \<noteq> []" and "list_all (\<lambda>(d, v). d < 2000 \<and> v \<noteq> []) ks"
    and "s' = keystrokes ks (handleInputChange v s)"
  shows "broadcasts (handleInputChange v s) = broadcasts s @ [typing_at u p True (now s)] \<and>
     broadcasts s' =
       broadcasts s @ map (typing_at u p True) (now s # keystroke_times (now s) ks) \<and>
     now s' = last (now s # keystroke_times (now s) ks) \<and>
     map deadline (timers s') = [now s' + 2000] \<and>
     map action (timers s') = [SendTypingStopped (Some u) (Some p)] \<and>
     (d < 2000 \<longrightarrow> broadcasts (advance d s') = broadcasts s') \<and>
     (2000 \<le> d \<longrightarrow>
       broadcasts (advance d s') = broadcasts s' @ [typing_at u p False (now s' + 2000)])"
proof -
  have owned: "timers_owned s"
    unfolding assms(1) by (rule timers_owned_run [OF timers_owned_initial])
  let ?s0 = "handleInputChange v s"
  have first: "broadcasts ?s0 = broadcasts s @ [typing_at u p True (now s)]"
    by (rule handleInputChange_broadcasts [OF assms(2-5)])
  have armed0: "idle_armed u p ?s0"
    by (rule idle_armed_handleInputChange [OF owned assms(2-5)])
  have now0: "now ?s0 = now s"
    by (simp add: handleInputChange_frame)
  from idle_armed_keystrokes [OF armed0 assms(6)]
  have armed: "idle_armed u p s'"
    and bs: "broadcasts s' = broadcasts ?s0 @ map (typing_at u p True) (keystroke_times (now s) ks)"
    and nw: "now s' = last (now s # keystroke_times (now s) ks)"
    by (simp_all add: assms(7) now0)
  have early: "broadcasts (advance d s') = broadcasts s'" if "d < 2000"
    by (simp add: idle_armed_advance_early [OF armed that])
  have late: "broadcasts (advance d s') = broadcasts s' @ [typing_at u p False (now s' + 2000)]"
    if "2000 \<le> d"
    by (rule idle_armed_advance_late [OF armed that])
  from armed have tm: "map deadline (timers s') = [now s' + 2000]"
    "map action (timers s') = [SendTypingStopped (Some u) (Some p)]"
    by (simp_all add: idle_armed_def)
  from first bs nw tm early late show ?thesis by simp
qed

lemma typing_idle_timer_debounced_example:
  "broadcasts (advance 2000 (keystrokes [(1000, lit ''hi'')] (handleInputChange (lit ''h'')
      (run [SelectPeer (Some (lit ''b''))] (initial (Some (lit ''a''))))))) =
     [typing_at (lit ''a'') (lit ''b'') True 0, typing_at (lit ''a'') (lit ''b'') True 1000,
      typing_at (lit ''a'') (lit ''b'') False 3000] \<and>
   broadcasts (advance 1999 (keystrokes [(1000, lit ''hi'')] (handleInputChange (lit ''h'')
      (run [SelectPeer (Some (lit ''b''))] (initial (Some (lit ''a''))))))) =
     [typing_at (lit ''a'') (lit ''b'') True 0, typing_at (lit ''a'') (lit ''b'') True 1000]"
proof -
  let ?s = "run [SelectPeer (Some (lit ''b''))] (initial (Some (lit ''a'')))"
  have st: "currentUser ?s = Some (lit ''a'')" "selectedUserId ?s = Some (lit ''b'')"
      "now ?s = 0" "broadcasts ?s = []"
    by (simp_all add: lit_def initial_def setSelectedUserId_def runCleanup_def runEffect_def
        Let_def)
  have ne: "lit ''b'' \<noteq> []" "lit ''h'' \<noteq> []"
      "list_all (\<lambda>(d, v). d < 2000 \<and> v \<noteq> []) [(1000::nat, lit ''hi'')]"
    by (simp_all add: lit_def)
  have st': "now (setSelectedUserId (Some (lit ''b'')) (initial (Some (lit ''a'')))) = 0"
      "broadcasts (setSelectedUserId (Some (lit ''b'')) (initial (Some (lit ''a'')))) = []"
    using st(3,4) by simp_all
  from typing_idle_timer_debounced [OF refl st(1,2) ne refl, of 2000]
    typing_idle_timer_debounced [OF refl st(1,2) ne refl, of 1999]
  show ?thesis by (simp add: st')
qed

text \<open>
  C6, as the code has it: a send action leaves the timers of the event loop and the
  handle in the ref untouched, so a pending idle timer stays pending. With a user logged
  in, a peer selected and a draft that is not blank, the send emits typing:false at
  once. An idle timer that fires emits at most one broadcast, and that one is
  typing:false, never typing:true.
\<close>

theorem send_keeps_idle_timer:
  "timers (handleSendMessage s) = timers s \<and>
   typingTimeoutRef (handleSendMessage s) = typingTimeoutRef s \<and>
   (currentUser s = Some u \<and> selectedUserId s = Some p \<and> p \<noteq> [] \<and>
    trim (messageInput s) \<noteq> [] \<longrightarrow>
    broadcasts (handleSendMessage s) =
      broadcasts s @ [\<lparr>sent_at = now s, topic = channelName u p, userId = u, typing = False\<rparr>]) \<and>
   (action t = SendTypingStopped cu sel \<longrightarrow>
    broadcasts (fire t s) = broadcasts s \<or>
    (\<exists>b. broadcasts (fire t s) = broadcasts s @ [b] \<and> \<not> typing b))"
  by (auto simp: handleSendMessage_def mutate_def sendTypingEvent_def fire_def
      split: option.splits)

theorem send_keeps_idle_timer_witness:
  "broadcasts (handleSendMessage
      ((initial (Some (lit ''a'')))
        \<lparr>selectedUserId := Some (lit ''b''), messageInput := lit ''hi''\<rparr>)) =
     [\<lparr>sent_at = 0, topic = lit ''chat-a-b'', userId = lit ''a'', typing = False\<rparr>] \<and>
   broadcasts (fire \<lparr>timer_id = 1, deadline = 2000,
                   action = SendTypingStopped (Some (lit ''a'')) (Some (lit ''b''))\<rparr>
                 (initial (Some (lit ''a'')))) =
     [\<lparr>sent_at = 0, topic = lit ''chat-a-b'', userId = lit ''a'', typing = False\<rparr>]"
  using send_keeps_idle_timer
      [of "(initial (Some (lit ''a'')))
        \<lparr>selectedUserId := Some (lit ''b''), messageInput := lit ''hi''\<rparr>" "lit ''a''" "lit ''b''"
        "\<lparr>timer_id = 1, deadline = 2000,
          action = SendTypingStopped (Some (lit ''a'')) (Some (lit ''b''))\<rparr>"
        "Some (lit ''a'')" "Some (lit ''b'')"]
  by (simp add: lit_def initial_def trim_def isWhiteSpace_def channelName_def fire_def
      sendTypingEvent_def)

text \<open>
  The idle timer set by the input change at time 0 is still pending after the send at
  time 500, and fires at time 2000: a second typing:false is sent after the send.
\<close>

theorem send_cancels_idle_timer_counterexample:
  "timers (run [SelectPeer (Some (lit ''b'')), InputChange (lit ''hi''), Advance 500,
                SendMessage]
             (initial (Some (lit ''a'')))) =
     [\<lparr>timer_id = 1, deadline = 2000,
       action = SendTypingStopped (Some (lit ''a'')) (Some (lit ''b''))\<rparr>] \<and>
   broadcasts (run [SelectPeer (Some (lit ''b'')), InputChange (lit ''hi''), Advance 500,
                SendMessage, Advance 1500]
             (initial (Some (lit ''a'')))) =
     [\<lparr>sent_at = 0, topic = lit ''chat-a-b'', userId = lit ''a'', typing = True\<rparr>,
      \<lparr>sent_at = 500, topic = lit ''chat-a-b'', userId = lit ''a'', typing = False\<rparr>,
      \<lparr>sent_at = 2000, topic = lit ''chat-a-b'', userId = lit ''a'', typing = False\<rparr>]"
  by (simp add: lit_def initial_def setSelectedUserId_def runCleanup_def runEffect_def
      removeChannel_def channelName_def Let_def handleInputChange_def sendTypingEvent_def
      setTimeout_def clearTimeout_def advance_def fire_def handleSendMessage_def mutate_def
      trim_def isWhiteSpace_def)

section \<open>One ref for two timers\<close>

text \<open>
  C3: the local idle timer and the remote expiry timer are meant to be independent, but
  both handles are kept in the one \<open>typingTimeoutRef\<close>. A typing:true from the peer at
  time 0 followed by an input change at time 1000: the input change clears the expiry
  timer and puts the idle timer in its place, so the remote-typing flag is still set
  10 seconds later. An input change at time 0 followed by a typing:true from the peer at
  time 1000: the handler clears the idle timer, so typing:false is never sent.
\<close>

theorem shared_timer_ref_couples_timers:
  "isTyping (run [SelectPeer (Some (lit ''b'')), TypingEvent (lit ''b'') True, Advance 1000,
                  InputChange (lit ''x''), Advance 10000]
               (initial (Some (lit ''a'')))) \<and>
   timers (run [SelectPeer (Some (lit ''b'')), TypingEvent (lit ''b'') True, Advance 1000,
                  InputChange (lit ''x'')]
               (initial (Some (lit ''a'')))) =
     [\<lparr>timer_id = 2, deadline = 3000,
       action = SendTypingStopped (Some (lit ''a'')) (Some (lit ''b''))\<rparr>] \<and>
   broadcasts (run [SelectPeer (Some (lit ''b'')), InputChange (lit ''x''), Advance 1000,
                  TypingEvent (lit ''b'') True, Advance 10000]
               (initial (Some (lit ''a'')))) =
     [\<lparr>sent_at = 0, topic = lit ''chat-a-b'', userId = lit ''a'', typing = True\<rparr>]"
  by (simp add: lit_def initial_def setSelectedUserId_def runCleanup_def runEffect_def
      removeChannel_def channelName_def Let_def handleInputChange_def sendTypingEvent_def
      on_broadcast_typing_def setTimeout_def clearTimeout_def advance_def fire_def)

text \<open>
  C4: typing:false is to be sent 2 seconds after the last input change when no further
  input follows. Input changes at times 0 and 1000 and then silence: typing:false is sent
  at time 3000. The same input changes and a typing:true from the peer at time 2000: the
  broadcast handler clears the idle timer, whose handle is in the one
  \<open>typingTimeoutRef\<close>, and sets the expiry timer in its place, so no typing:false has
  been sent 10 seconds later. The same input changes and the selection of another peer
  at time 1500: the cleanup of the subscription effect clears the idle timer through the
  same ref, and no typing:false is sent either.
\<close>

theorem idle_timer_lost_to_peer_typing:
  "broadcasts (run [SelectPeer (Some (lit ''b'')), InputChange (lit ''h''), Advance 1000,
                    InputChange (lit ''hi''), Advance 2000]
                 (initial (Some (lit ''a'')))) =
     [typing_at (lit ''a'') (lit ''b'') True 0, typing_at (lit ''a'') (lit ''b'') True 1000,
      typing_at (lit ''a'') (lit ''b'') False 3000] \<and>
   broadcasts (run [SelectPeer (Some (lit ''b'')), InputChange (lit ''h''), Advance 1000,
                    InputChange (lit ''hi''), Advance 1000, TypingEvent (lit ''b'') True,
                    Advance 10000]
                 (initial (Some (lit ''a'')))) =
     [typing_at (lit ''a'') (lit ''b'') True 0, typing_at (lit ''a'') (lit ''b'') True 1000] \<and>
   timers (run [SelectPeer (Some (lit ''b'')), InputChange (lit ''h''), Advance 1000,
                InputChange (lit ''hi''), Advance 1000, TypingEvent (lit ''b'') True]
             (initial (Some (lit ''a'')))) =
     [\<lparr>timer_id = 3, deadline = 5000, action = HideTyping\<rparr>] \<and>
   broadcasts (run [SelectPeer (Some (lit ''b'')), InputChange (lit ''h''), Advance 1000,
                    InputChange (lit ''hi''), Advance 500, SelectPeer (Some (lit ''c'')),
                    Advance 10000]
                 (initial (Some (lit ''a'')))) =
     [typing_at (lit ''a'') (lit ''b'') True 0, typing_at (lit ''a'') (lit ''b'') True 1000]"
  by (simp add: lit_def initial_def setSelectedUserId_def runCleanup_def runEffect_def
      removeChannel_def channelName_def Let_def handleInputChange_def sendTypingEvent_def
      on_broadcast_typing_def setTimeout_def clearTimeout_def advance_def fire_def
      typing_at_def)

text \<open>
  C5: the remote-typing flag is to clear itself 3 seconds after a typing:true from the
  selected peer when no further event of the peer arrives. A typing:true at time 0 and
  then silence: the flag is cleared at time 3000. The same typing:true and a local input
  change at time 2000: \<open>handleInputChange\<close> clears the expiry timer, whose handle is in
  the one \<open>typingTimeoutRef\<close>, and sets the idle timer in its place, so the flag is
  still set at time 3000 and 10 seconds later. The same typing:true and the selection of
  another peer at time 2000: the cleanup clears the expiry timer and the flag, which
  nothing resets, is still set 10 seconds later in the conversation with the other peer.
\<close>

theorem expiry_timer_lost_to_local_input:
  "\<not> isTyping (run [SelectPeer (Some (lit ''b'')), TypingEvent (lit ''b'') True, Advance 3000]
                 (initial (Some (lit ''a'')))) \<and>
   isTyping (run [SelectPeer (Some (lit ''b'')), TypingEvent (lit ''b'') True, Advance 2000,
                  InputChange (lit ''h''), Advance 1000]
               (initial (Some (lit ''a'')))) \<and>
   isTyping (run [SelectPeer (Some (lit ''b'')), TypingEvent (lit ''b'') True, Advance 2000,
                  InputChange (lit ''h''), Advance 1000, Advance 10000]
               (initial (Some (lit ''a'')))) \<and>
   timers (run [SelectPeer (Some (lit ''b'')), TypingEvent (lit ''b'') True, Advance 2000,
                InputChange (lit ''h'')]
             (initial (Some (lit ''a'')))) =
     [\<lparr>timer_id = 2, deadline = 4000,
       action = SendTypingStopped (Some (lit ''a'')) (Some (lit ''b''))\<rparr>] \<and>
   isTyping (run [SelectPeer (Some (lit ''b'')), TypingEvent (lit ''b'') True, Advance 2000,
                  SelectPeer (Some (lit ''c'')), Advance 10000]
               (initial (Some (lit ''a''))))"
  by (simp add: lit_def initial_def setSelectedUserId_def runCleanup_def runEffect_def
      removeChannel_def channelName_def Let_def handleInputChange_def sendTypingEvent_def
      on_broadcast_typing_def setTimeout_def clearTimeout_def advance_def fire_def)

end
